theory Spec2Isabelle
  imports Complex_Main "HOL-Library.Sublist"
begin

section \<open>Numbers and vectors\<close>

text \<open>
  A vector is the list of numbers of a request or of a stored document, as they are
  written in the JSON text: real numbers. The source computes with them as doubles; a
  number is rounded to a double when it is parsed.
\<close>

type_synonym Vec = "real list"

subsection \<open>Double precision\<close>

text \<open>
  A JavaScript number is an IEEE 754 double: a finite value, one of the two infinities,
  or NaN. Negative zero is identified with zero: this program never divides by zero, and
  no comparison it makes tells the two apart.
\<close>

datatype f64 = Fin real | PosInf | NegInf | NaN

text \<open>
  Rounding to the nearest double, ties to the even significand. \<open>ulp x\<close> is the spacing
  of the doubles in the binade of \<open>x\<close> (52 fraction bits, least exponent \<open>-1022\<close>, so
  \<open>2^-1074\<close> for subnormal numbers); \<open>x\<close> is rounded to a multiple of it, and a result
  of magnitude \<open>2^1024\<close> or more is an infinity.
\<close>

definition rne :: "real \<Rightarrow> int" where
  "rne y =
     (let f = \<lfloor>y\<rfloor>; d = y - of_int f
      in if d < 1 / 2 then f else if 1 / 2 < d then f + 1 else if even f then f else f + 1)"

definition ulp :: "real \<Rightarrow> real" where
  "ulp x = 2 powr of_int (max \<lfloor>log 2 \<bar>x\<bar>\<rfloor> (- 1022) - 52)"

definition round_f64 :: "real \<Rightarrow> f64" where
  "round_f64 x =
     (if x = 0 then Fin 0
      else (let r = of_int (rne (x / ulp x)) * ulp x
            in if 2 ^ 1024 \<le> \<bar>r\<bar> then (if 0 < x then PosInf else NegInf) else Fin r))"

text \<open>
  The arithmetic of doubles: the exact result of the operation on finite values is
  rounded; infinities and NaN follow IEEE 754 (\<open>Infinity - Infinity\<close>, \<open>0 * Infinity\<close> and
  \<open>Infinity / Infinity\<close> are NaN, and NaN propagates). \<open>Math.sqrt\<close> rounds the exact root.
\<close>

fun f64_add :: "f64 \<Rightarrow> f64 \<Rightarrow> f64" where
  "f64_add (Fin a) (Fin b) = round_f64 (a + b)"
| "f64_add NaN _ = NaN"
| "f64_add _ NaN = NaN"
| "f64_add PosInf NegInf = NaN"
| "f64_add NegInf PosInf = NaN"
| "f64_add PosInf _ = PosInf"
| "f64_add _ PosInf = PosInf"
| "f64_add NegInf _ = NegInf"
| "f64_add _ NegInf = NegInf"

fun f64_neg :: "f64 \<Rightarrow> f64" where
  "f64_neg (Fin a) = Fin (- a)"
| "f64_neg PosInf = NegInf"
| "f64_neg NegInf = PosInf"
| "f64_neg NaN = NaN"

definition f64_sub :: "f64 \<Rightarrow> f64 \<Rightarrow> f64" where
  "f64_sub a b = f64_add a (f64_neg b)"

fun f64_sgn :: "f64 \<Rightarrow> real" where
  "f64_sgn (Fin a) = sgn a"
| "f64_sgn PosInf = 1"
| "f64_sgn NegInf = - 1"
| "f64_sgn NaN = 0"

definition inf_of_sign :: "real \<Rightarrow> f64" where
  "inf_of_sign s = (if s = 0 then NaN else if 0 < s then PosInf else NegInf)"

fun f64_mul :: "f64 \<Rightarrow> f64 \<Rightarrow> f64" where
  "f64_mul (Fin a) (Fin b) = round_f64 (a * b)"
| "f64_mul NaN _ = NaN"
| "f64_mul _ NaN = NaN"
| "f64_mul x y = inf_of_sign (f64_sgn x * f64_sgn y)"

fun f64_div :: "f64 \<Rightarrow> f64 \<Rightarrow> f64" where
  "f64_div (Fin a) (Fin b) = (if b = 0 then inf_of_sign (sgn a) else round_f64 (a / b))"
| "f64_div NaN _ = NaN"
| "f64_div _ NaN = NaN"
| "f64_div (Fin a) _ = Fin 0"
| "f64_div PosInf (Fin b) = (if 0 \<le> b then PosInf else NegInf)"
| "f64_div NegInf (Fin b) = (if 0 \<le> b then NegInf else PosInf)"
| "f64_div _ _ = NaN"

fun f64_sqrt :: "f64 \<Rightarrow> f64" where
  "f64_sqrt (Fin a) = (if a < 0 then NaN else round_f64 (sqrt a))"
| "f64_sqrt PosInf = PosInf"
| "f64_sqrt NegInf = NaN"
| "f64_sqrt NaN = NaN"

text \<open>The comparison \<open>a >= b\<close> of doubles: false whenever one of them is NaN.\<close>

fun f64_ge :: "f64 \<Rightarrow> f64 \<Rightarrow> bool" where
  "f64_ge NaN _ = False"
| "f64_ge _ NaN = False"
| "f64_ge PosInf _ = True"
| "f64_ge _ NegInf = True"
| "f64_ge (Fin a) (Fin b) = (b \<le> a)"
| "f64_ge _ _ = False"

subsection \<open>\<open>cosine\<close> (src/vector/index.ts, lines 4 to 15)\<close>

text \<open>
  The loop \<open>for (let i = 0; i < a.length; i++)\<close> reads \<open>a[i]\<close> and \<open>b[i]\<close> in step and
  updates the three accumulators \<open>dot\<close>, \<open>na\<close>, \<open>nb\<close>, each operation rounding its result.
  It is only reached when both arrays have the same length. \<open>denom === 0\<close> holds for the
  number zero only, not for NaN.
\<close>

fun cosine_loop :: "f64 list \<Rightarrow> f64 list \<Rightarrow> f64 \<times> f64 \<times> f64 \<Rightarrow> f64 \<times> f64 \<times> f64" where
  "cosine_loop (x # a) (y # b) (dot, na, nb) =
     cosine_loop a b
       (f64_add dot (f64_mul x y), f64_add na (f64_mul x x), f64_add nb (f64_mul y y))"
| "cosine_loop _ _ acc = acc"

definition cosine :: "Vec \<Rightarrow> Vec \<Rightarrow> f64" where
  "cosine a b =
     (if length a \<noteq> length b then Fin 0
      else (case cosine_loop (map round_f64 a) (map round_f64 b) (Fin 0, Fin 0, Fin 0) of
              (dot, na, nb) \<Rightarrow>
                (let denom = f64_mul (f64_sqrt na) (f64_sqrt nb)
                 in if denom = Fin 0 then Fin 0 else f64_div dot denom)))"

text \<open>
  The same computation in exact arithmetic, without rounding, overflow or NaN. The
  candidate ranking of \<open>search\<close> below is stated with these exact scores; the ranking
  with the scores of \<open>cosine\<close> is \<open>search_f64\<close>.
\<close>

fun cosine_exact_loop :: "Vec \<Rightarrow> Vec \<Rightarrow> real \<times> real \<times> real \<Rightarrow> real \<times> real \<times> real" where
  "cosine_exact_loop (x # a) (y # b) (dot, na, nb) =
     cosine_exact_loop a b (dot + x * y, na + x * x, nb + y * y)"
| "cosine_exact_loop _ _ acc = acc"

definition cosine_exact :: "Vec \<Rightarrow> Vec \<Rightarrow> real" where
  "cosine_exact a b =
     (if length a \<noteq> length b then 0
      else (case cosine_exact_loop a b (0, 0, 0) of
              (dot, na, nb) \<Rightarrow>
                (let denom = sqrt na * sqrt nb
                 in if denom = 0 then 0 else dot / denom)))"

text \<open>The similarity as the specification words it: dot product over the product of norms.\<close>

definition dot_product :: "Vec \<Rightarrow> Vec \<Rightarrow> real" where
  "dot_product a b = (\<Sum>(x, y) \<leftarrow> zip a b. x * y)"

definition l2_norm :: "Vec \<Rightarrow> real" where
  "l2_norm a = sqrt (\<Sum>x \<leftarrow> a. x * x)"

definition cosine_spec :: "Vec \<Rightarrow> Vec \<Rightarrow> real" where
  "cosine_spec a b =
     (if length a = length b \<and> l2_norm a \<noteq> 0 \<and> l2_norm b \<noteq> 0
      then dot_product a b / (l2_norm a * l2_norm b)
      else 0)"

section \<open>The vector index (src/vector/index.ts, lines 17 to 41)\<close>

text \<open>
  \<open>LocalVectorIndex\<close> has one field, a JavaScript \<open>Map\<close> from memory id to vector. A \<open>Map\<close>
  iterates its entries in insertion order, \<open>set\<close> on a key that is present replaces the
  value in place, \<open>set\<close> on a new key appends, and \<open>delete\<close> removes the entry. The state
  is therefore the list of entries in iteration order.
\<close>

type_synonym LocalVectorIndex = "(string \<times> Vec) list"

fun Map_set :: "string \<Rightarrow> Vec \<Rightarrow> LocalVectorIndex \<Rightarrow> LocalVectorIndex" where
  "Map_set k v [] = [(k, v)]"
| "Map_set k v ((k', v') # m) = (if k' = k then (k, v) # m else (k', v') # Map_set k v m)"

definition Map_delete :: "string \<Rightarrow> LocalVectorIndex \<Rightarrow> LocalVectorIndex" where
  "Map_delete k m = filter (\<lambda>e. fst e \<noteq> k) m"

definition clear :: "LocalVectorIndex \<Rightarrow> LocalVectorIndex" where
  "clear m = []"

definition upsert :: "string \<Rightarrow> Vec \<Rightarrow> LocalVectorIndex \<Rightarrow> LocalVectorIndex" where
  "upsert memoryId embedding m = Map_set memoryId embedding m"

definition delete :: "string \<Rightarrow> LocalVectorIndex \<Rightarrow> LocalVectorIndex" where
  "delete memoryId m = Map_delete memoryId m"

text \<open>
  \<open>Array.prototype.sort\<close> with a comparator: an element \<open>a\<close> goes before \<open>b\<close> when
  \<open>cmp a b < 0\<close>, and the sort is stable (ECMAScript 2019), so elements that compare equal
  keep their order. For a consistent comparator the result is unique; it is computed here
  by stable insertion.
\<close>

fun sort_insert :: "('a \<Rightarrow> 'a \<Rightarrow> real) \<Rightarrow> 'a \<Rightarrow> 'a list \<Rightarrow> 'a list" where
  "sort_insert cmp x [] = [x]"
| "sort_insert cmp x (y # ys) =
     (if cmp x y \<le> 0 then x # y # ys else y # sort_insert cmp x ys)"

definition Array_sort :: "('a \<Rightarrow> 'a \<Rightarrow> real) \<Rightarrow> 'a list \<Rightarrow> 'a list" where
  "Array_sort cmp xs = foldr (sort_insert cmp) xs []"

text \<open>
  \<open>search\<close>: score every entry in iteration order, sort by \<open>b.score - a.score\<close>, keep the
  first \<open>topK\<close>. \<open>topK\<close> is a count (both callers pass an integer between 1 and 50), and
  for a count \<open>slice(0, topK)\<close> is \<open>take topK\<close>. \<open>scored\<close> and \<open>search\<close> rank by the exact
  scores, for which the comparator is consistent and the sorted order is determined.
\<close>

definition scored :: "Vec \<Rightarrow> LocalVectorIndex \<Rightarrow> (string \<times> real) list" where
  "scored query m = map (\<lambda>(memory_id, vec). (memory_id, cosine_exact query vec)) m"

definition search :: "Vec \<Rightarrow> nat \<Rightarrow> LocalVectorIndex \<Rightarrow> (string \<times> real) list" where
  "search query topK m = take topK (Array_sort (\<lambda>a b. snd b - snd a) (scored query m))"

text \<open>
  \<open>search\<close> with the scores the source computes, in double precision. The comparator
  \<open>b.score - a.score\<close> returns NaN when a score is NaN, and the order that
  \<open>Array.prototype.sort\<close> leaves is then implementation-defined (ECMAScript).
  The sort of the engine is therefore a parameter, \<open>sort_impl\<close>, of which only this is
  used: it returns its input rearranged.
\<close>

definition scored_f64 :: "Vec \<Rightarrow> LocalVectorIndex \<Rightarrow> (string \<times> f64) list" where
  "scored_f64 query m = map (\<lambda>(memory_id, vec). (memory_id, cosine query vec)) m"

definition search_f64 ::
  "((string \<times> f64 \<Rightarrow> string \<times> f64 \<Rightarrow> f64) \<Rightarrow> (string \<times> f64) list \<Rightarrow> (string \<times> f64) list)
   \<Rightarrow> Vec \<Rightarrow> nat \<Rightarrow> LocalVectorIndex \<Rightarrow> (string \<times> f64) list" where
  "search_f64 sort_impl query topK m =
     take topK (sort_impl (\<lambda>a b. f64_sub (snd b) (snd a)) (scored_f64 query m))"

text \<open>The index as an object: a call, its reply and the state after it.\<close>

datatype index_call =
    Clear
  | Upsert string Vec
  | Delete string
  | Search Vec nat

datatype index_reply = Done | Results "(string \<times> real) list"

fun invoke :: "index_call \<Rightarrow> LocalVectorIndex \<Rightarrow> index_reply \<times> LocalVectorIndex" where
  "invoke Clear m = (Done, clear m)"
| "invoke (Upsert memoryId embedding) m = (Done, upsert memoryId embedding m)"
| "invoke (Delete memoryId) m = (Done, delete memoryId m)"
| "invoke (Search query topK) m = (Results (search query topK m), m)"

definition run_calls :: "index_call list \<Rightarrow> LocalVectorIndex \<Rightarrow> LocalVectorIndex" where
  "run_calls cs m = foldl (\<lambda>s c. snd (invoke c s)) m cs"

text \<open>
  An id is live after a sequence of calls when some call upserted it and no later call
  deleted it or cleared the index. The calls are scanned from the latest one backwards.
\<close>

fun live_rev :: "index_call list \<Rightarrow> string \<Rightarrow> bool" where
  "live_rev [] i = False"
| "live_rev (Upsert k v # earlier) i = (k = i \<or> live_rev earlier i)"
| "live_rev (Delete k # earlier) i = (k \<noteq> i \<and> live_rev earlier i)"
| "live_rev (Clear # earlier) i = False"
| "live_rev (Search q k # earlier) i = live_rev earlier i"

definition upserted_not_deleted :: "index_call list \<Rightarrow> string \<Rightarrow> bool" where
  "upserted_not_deleted cs i = live_rev (rev cs) i"

section \<open>Records and the persistent store\<close>

text \<open>
  A stored document has the nine fields of the object literal \<open>doc\<close> (server.ts, lines 35
  to 45 and 147 to 157). The six fields that \<open>search_memories\<close> copies into its reply
  (lines 98 to 105) form the record \<open>memory\<close>; \<open>doc\<close> extends it with the three fields that
  are never returned. \<open>agent_id\<close> is \<open>None\<close> for \<open>null\<close>; \<open>scope\<close> is the stored string;
  \<open>created_at\<close> is a timestamp.
\<close>

record memory =
  memory_id :: string
  encrypted_text :: string
  scope :: string
  agent_id :: "string option"
  created_at :: nat
  embedding_model :: string

record doc = memory +
  user_id :: string
  embedding :: Vec
  embedding_dim :: nat

datatype error =
    ValidationError
  | BadRequest string
  | StoreError

text \<open>
  Modelled from the spec: the Persistent Store. \<open>memoryCollection()\<close> (db/mongo) returns
  the collection \<open>memories\<close> of the MongoDB driver, or throws when the database is not
  connected; the driver (package \<open>mongodb\<close>) is not among the sources. The specification
  describes the store as durable storage with insert, delete by owner and id, filtered
  fetch and full scan, which can be unreachable or erroring. The collection is the list
  of its documents in insertion
  order, with a flag that says whether it answers. \<open>insertOne\<close> appends, \<open>find(f).toArray()\<close>
  returns the documents that satisfy the filter, \<open>deleteOne\<close> removes the first document
  that satisfies the filter. A call to a collection that does not answer fails and
  changes nothing.
\<close>

record collection =
  documents :: "doc list"
  reachable :: bool

definition insertOne :: "doc \<Rightarrow> collection \<Rightarrow> error + collection" where
  "insertOne d c =
     (if reachable c then Inr (c\<lparr>documents := documents c @ [d]\<rparr>) else Inl StoreError)"

definition find_toArray :: "(doc \<Rightarrow> bool) \<Rightarrow> collection \<Rightarrow> error + doc list" where
  "find_toArray f c = (if reachable c then Inr (filter f (documents c)) else Inl StoreError)"

fun remove_first :: "('a \<Rightarrow> bool) \<Rightarrow> 'a list \<Rightarrow> 'a list" where
  "remove_first f [] = []"
| "remove_first f (x # xs) = (if f x then xs else x # remove_first f xs)"

definition deleteOne :: "(doc \<Rightarrow> bool) \<Rightarrow> collection \<Rightarrow> error + collection" where
  "deleteOne f c =
     (if reachable c then Inr (c\<lparr>documents := remove_first f (documents c)\<rparr>)
      else Inl StoreError)"

section \<open>The orchestrator (src/server.ts)\<close>

text \<open>The two stores a handler works on: the collection and the exported \<open>vectorIndex\<close>.\<close>

record world =
  memoryCollection :: collection
  vectorIndex :: LocalVectorIndex

text \<open>
  A handler body is a sequence of statements with an effect on one of the two stores. A
  statement on the collection is awaited and may throw; the statements after it are then
  not run. \<open>run_effects\<close> returns the error, if any, and the state the stores are left in.
  The state after the first \<open>n\<close> statements of a body is \<open>run_effects (take n body)\<close>.
\<close>

datatype effect =
    InsertOne doc
  | DeleteOne string string
  | IndexUpsert string Vec
  | IndexDelete string

fun perform :: "effect \<Rightarrow> world \<Rightarrow> error + world" where
  "perform (InsertOne d) w =
     (case insertOne d (memoryCollection w) of
        Inl e \<Rightarrow> Inl e
      | Inr c \<Rightarrow> Inr (w\<lparr>memoryCollection := c\<rparr>))"
| "perform (DeleteOne uid mid) w =
     (case deleteOne (\<lambda>d. user_id d = uid \<and> memory_id d = mid) (memoryCollection w) of
        Inl e \<Rightarrow> Inl e
      | Inr c \<Rightarrow> Inr (w\<lparr>memoryCollection := c\<rparr>))"
| "perform (IndexUpsert mid v) w = Inr (w\<lparr>vectorIndex := upsert mid v (vectorIndex w)\<rparr>)"
| "perform (IndexDelete mid) w = Inr (w\<lparr>vectorIndex := delete mid (vectorIndex w)\<rparr>)"

fun run_effects :: "effect list \<Rightarrow> world \<Rightarrow> error option \<times> world" where
  "run_effects [] w = (None, w)"
| "run_effects (e # es) w =
     (case perform e w of
        Inl err \<Rightarrow> (Some err, w)
      | Inr w' \<Rightarrow> run_effects es w')"

subsection \<open>\<open>add_memory\<close> (lines 22 to 54) and \<open>POST /v1/memories\<close> (lines 135 to 163)\<close>

record add_memory_args =
  arg_user_id :: string
  arg_agent_id :: "string option"
  arg_scope :: string
  arg_encrypted_text :: string
  arg_embedding :: Vec
  arg_embedding_model :: "string option"

text \<open>
  The schema of the tool (lines 25 to 30): \<open>scope\<close> is one of the two enum values and
  \<open>embedding\<close> has at least one element. The types of the fields are those of the record.
\<close>

definition add_memory_schema :: "add_memory_args \<Rightarrow> bool" where
  "add_memory_schema args \<longleftrightarrow>
     (arg_scope args = ''global'' \<or> arg_scope args = ''agent'') \<and> 1 \<le> length (arg_embedding args)"

text \<open>The object literal \<open>doc\<close>; \<open>uuid\<close> is the value of \<open>uuidv4()\<close> and \<open>now\<close> of \<open>new Date()\<close>.\<close>

definition new_doc :: "string \<Rightarrow> nat \<Rightarrow> add_memory_args \<Rightarrow> doc" where
  "new_doc uuid now args =
     \<lparr>memory_id = uuid,
      encrypted_text = arg_encrypted_text args,
      scope = arg_scope args,
      agent_id = arg_agent_id args,
      created_at = now,
      embedding_model = (case arg_embedding_model args of None \<Rightarrow> ''client'' | Some m \<Rightarrow> m),
      user_id = arg_user_id args,
      embedding = arg_embedding args,
      embedding_dim = length (arg_embedding args)\<rparr>"

text \<open>Lines 47 and 48 (and 159 and 160): first \<open>insertOne\<close>, then \<open>upsert\<close>.\<close>

definition add_memory_body :: "string \<Rightarrow> nat \<Rightarrow> add_memory_args \<Rightarrow> effect list" where
  "add_memory_body uuid now args =
     [InsertOne (new_doc uuid now args), IndexUpsert uuid (arg_embedding args)]"

definition add_memory_handler ::
  "string \<Rightarrow> nat \<Rightarrow> add_memory_args \<Rightarrow> world \<Rightarrow> (error + string) \<times> world" where
  "add_memory_handler uuid now args w =
     (case run_effects (add_memory_body uuid now args) w of
        (Some err, w') \<Rightarrow> (Inl err, w')
      | (None, w') \<Rightarrow> (Inr uuid, w'))"

text \<open>
  A tool call: the arguments are checked against the schema, and the handler runs only
  when they pass.
\<close>

definition add_memory ::
  "string \<Rightarrow> nat \<Rightarrow> add_memory_args \<Rightarrow> world \<Rightarrow> (error + string) \<times> world" where
  "add_memory uuid now args w =
     (if add_memory_schema args then add_memory_handler uuid now args w
      else (Inl ValidationError, w))"

text \<open>
  The body of a REST request is untyped. A field is \<open>None\<close> when its key is absent. The
  \<open>embedding\<close> field, when present, is an array (\<open>Array\<close>) or a value that is not an array
  (\<open>NotArray\<close>). The route tests \<open>Array.isArray\<close> and the length only, not the elements;
  the elements of an array are numbers here, and an array with elements that are not
  numbers, which the route accepts too, is not represented.
\<close>

datatype embedding_field = Array Vec | NotArray

record memories_body =
  body_user_id :: "string option"
  body_agent_id :: "string option"
  body_scope :: "string option"
  body_encrypted_text :: "string option"
  body_embedding :: "embedding_field option"
  body_embedding_model :: "string option"

definition post_v1_memories ::
  "string \<Rightarrow> nat \<Rightarrow> memories_body \<Rightarrow> world \<Rightarrow> (error + string) \<times> world" where
  "post_v1_memories uuid now body w =
     (case body_user_id body of
        None \<Rightarrow> (Inl (BadRequest ''Missing user_id''), w)
      | Some uid \<Rightarrow>
     (case body_scope body of
        None \<Rightarrow> (Inl (BadRequest ''Missing scope''), w)
      | Some sc \<Rightarrow>
     (case body_encrypted_text body of
        None \<Rightarrow> (Inl (BadRequest ''Missing encrypted_text''), w)
      | Some txt \<Rightarrow>
     (case body_embedding body of
        None \<Rightarrow> (Inl (BadRequest ''Missing embedding''), w)
      | Some NotArray \<Rightarrow> (Inl (BadRequest ''embedding must be number[]''), w)
      | Some (Array emb) \<Rightarrow>
          if length emb = 0 then (Inl (BadRequest ''embedding must be number[]''), w)
          else add_memory_handler uuid now
                 \<lparr>arg_user_id = uid, arg_agent_id = body_agent_id body, arg_scope = sc,
                  arg_encrypted_text = txt, arg_embedding = emb,
                  arg_embedding_model = body_embedding_model body\<rparr> w))))"

subsection \<open>\<open>search_memories\<close> (lines 57 to 110) and \<open>POST /v1/search\<close> (lines 166 to 204)\<close>

text \<open>
  The filter of lines 78 to 85: the owner, membership of the ranked ids, and the scope
  rule. \<open>aid\<close> is \<open>args.agent_id ?? null\<close>.
\<close>

definition scope_rule :: "string option \<Rightarrow> doc \<Rightarrow> bool" where
  "scope_rule aid d \<longleftrightarrow> scope d = ''global'' \<or> (scope d = ''agent'' \<and> agent_id d = aid)"

definition scopeFilter :: "string \<Rightarrow> string option \<Rightarrow> string list \<Rightarrow> doc \<Rightarrow> bool" where
  "scopeFilter uid aid rankedIds d \<longleftrightarrow>
     user_id d = uid \<and> memory_id d \<in> set rankedIds \<and> scope_rule aid d"

text \<open>The object literal of lines 98 to 105.\<close>

definition returned_fields :: "doc \<Rightarrow> memory" where
  "returned_fields m =
     \<lparr>memory_id = memory_id m,
      encrypted_text = encrypted_text m,
      scope = scope m,
      agent_id = agent_id m,
      created_at = created_at m,
      embedding_model = embedding_model m\<rparr>"

text \<open>
  \<open>new Map(entries)\<close> keeps, for a key that occurs several times, the last value; \<open>get\<close>
  on it is \<open>map_of\<close> on the reversed entries. \<open>rankedIds.map(id => docMap.get(id))
  .filter(Boolean)\<close> keeps the documents found, in the order of \<open>rankedIds\<close>.
\<close>

definition ranked_fetch ::
  "string \<Rightarrow> string option \<Rightarrow> Vec \<Rightarrow> nat \<Rightarrow> world \<Rightarrow> error + memory list" where
  "ranked_fetch uid aid query topK w =
     (let ranked = search query topK (vectorIndex w);
          rankedIds = map fst ranked
      in if length rankedIds = 0 then Inr []
         else
           (case find_toArray (scopeFilter uid aid rankedIds) (memoryCollection w) of
              Inl e \<Rightarrow> Inl e
            | Inr docs \<Rightarrow>
                (let docMap = map_of (rev (map (\<lambda>d. (memory_id d, d)) docs));
                     ordered = List.map_filter docMap rankedIds
                 in Inr (map returned_fields ordered))))"

record search_memories_args =
  search_user_id :: string
  search_agent_id :: "string option"
  query_embedding :: Vec
  top_k :: "nat option"

definition search_memories_schema :: "search_memories_args \<Rightarrow> bool" where
  "search_memories_schema args \<longleftrightarrow>
     1 \<le> length (query_embedding args)
     \<and> (case top_k args of None \<Rightarrow> True | Some k \<Rightarrow> 1 \<le> k \<and> k \<le> 50)"

definition search_memories_handler :: "search_memories_args \<Rightarrow> world \<Rightarrow> error + memory list" where
  "search_memories_handler args w =
     (let topK = (case top_k args of None \<Rightarrow> 5 | Some k \<Rightarrow> k)
      in ranked_fetch (search_user_id args) (search_agent_id args) (query_embedding args) topK w)"

definition search_memories :: "search_memories_args \<Rightarrow> world \<Rightarrow> error + memory list" where
  "search_memories args w =
     (if search_memories_schema args then search_memories_handler args w
      else Inl ValidationError)"

record search_body =
  sbody_user_id :: "string option"
  sbody_agent_id :: "string option"
  sbody_query_embedding :: "embedding_field option"
  sbody_top_k :: "int option"

definition post_v1_search :: "search_body \<Rightarrow> world \<Rightarrow> error + memory list" where
  "post_v1_search body w =
     (case sbody_user_id body of
        None \<Rightarrow> Inl (BadRequest ''user_id required'')
      | Some uid \<Rightarrow>
          if uid = [] then Inl (BadRequest ''user_id required'')
          else
            (case sbody_query_embedding body of
               Some (Array q) \<Rightarrow>
                 if length q = 0 then Inl (BadRequest ''query_embedding must be number[]'')
                 else
                   (let topK = max 1 (min (case sbody_top_k body of None \<Rightarrow> 5 | Some k \<Rightarrow> k) 50)
                    in ranked_fetch uid (sbody_agent_id body) q (nat topK) w)
             | _ \<Rightarrow> Inl (BadRequest ''query_embedding must be number[]'')))"

subsection \<open>\<open>delete_memory\<close> (lines 113 to 124) and \<open>DELETE /v1/memories/:id\<close> (lines 207 to 216)\<close>

text \<open>Lines 120 and 121 (and 212 and 213): first \<open>deleteOne\<close>, then \<open>vectorIndex.delete\<close>.\<close>

definition delete_memory_body :: "string \<Rightarrow> string \<Rightarrow> effect list" where
  "delete_memory_body uid mid = [DeleteOne uid mid, IndexDelete mid]"

text \<open>The reply is the value of the field \<open>deleted\<close>.\<close>

definition delete_memory :: "string \<Rightarrow> string \<Rightarrow> world \<Rightarrow> (error + bool) \<times> world" where
  "delete_memory uid mid w =
     (case run_effects (delete_memory_body uid mid) w of
        (Some err, w') \<Rightarrow> (Inl err, w')
      | (None, w') \<Rightarrow> (Inr True, w'))"

definition delete_v1_memories ::
  "string \<Rightarrow> string option \<Rightarrow> world \<Rightarrow> (error + bool) \<times> world" where
  "delete_v1_memories mid query_user_id w =
     (case query_user_id of
        None \<Rightarrow> (Inl (BadRequest ''user_id required in query''), w)
      | Some uid \<Rightarrow>
          if uid = [] then (Inl (BadRequest ''user_id required in query''), w)
          else delete_memory uid mid w)"

subsection \<open>\<open>rebuildLocalVectorIndex\<close> (README.md, lines 98 to 106)\<close>



text \<open>Upserting a list of entries, one after the other, in the order of the list.\<close>

definition replay :: "(string \<times> Vec) list \<Rightarrow> LocalVectorIndex \<Rightarrow> LocalVectorIndex" where
  "replay es m = foldl (\<lambda>s e. upsert (fst e) (snd e) s) m es"

text \<open>
  For stating results: a document is eligible for a requester when it is owned by the
  requester's \<open>user_id\<close> and passes the scope rule; \<open>fetched\<close> lists, for each ranked id in
  order, the eligible document stored last under that id, if there is one.
\<close>

definition eligible :: "string \<Rightarrow> string option \<Rightarrow> doc \<Rightarrow> bool" where
  "eligible uid aid d \<longleftrightarrow> user_id d = uid \<and> scope_rule aid d"

definition fetched :: "string \<Rightarrow> string option \<Rightarrow> string list \<Rightarrow> doc list \<Rightarrow> doc list" where
  "fetched uid aid ids docs =
     List.map_filter (\<lambda>i. find (\<lambda>d. memory_id d = i \<and> eligible uid aid d) (rev docs)) ids"

section \<open>Example states\<close>

text \<open>
  Two users store one global memory each, through \<open>add_memory\<close>, in a store that starts
  empty: first bob, with embedding \<open>[1, 0]\<close>, then alice, with embedding \<open>[0, 1]\<close>.
\<close>

definition empty_world :: world where
  "empty_world = \<lparr>memoryCollection = \<lparr>documents = [], reachable = True\<rparr>, vectorIndex = []\<rparr>"

definition memo :: "string \<Rightarrow> string option \<Rightarrow> string \<Rightarrow> Vec \<Rightarrow> add_memory_args" where
  "memo uid aid sc emb =
     \<lparr>arg_user_id = uid, arg_agent_id = aid, arg_scope = sc,
      arg_encrypted_text = ''ciphertext'', arg_embedding = emb, arg_embedding_model = None\<rparr>"

definition two_users_world :: world where
  "two_users_world =
     snd (add_memory ''m-alice'' 2 (memo ''alice'' None ''global'' [0, 1])
       (snd (add_memory ''m-bob'' 1 (memo ''bob'' None ''global'' [1, 0]) empty_world)))"

text \<open>
  One user stores three memories with the same embedding: one private to agent \<open>A\<close>, one
  with scope \<open>agent\<close> and no agent id, and one global.
\<close>

definition scoped_world :: world where
  "scoped_world =
     snd (add_memory ''m-global'' 3 (memo ''alice'' (Some ''A'') ''global'' [1, 0])
       (snd (add_memory ''m-orphan'' 2 (memo ''alice'' None ''agent'' [1, 0])
         (snd (add_memory ''m-agent-A'' 1 (memo ''alice'' (Some ''A'') ''agent'' [1, 0])
            empty_world)))))"

text \<open>The same store when it does not answer.\<close>

definition offline_world :: world where
  "offline_world = \<lparr>memoryCollection = \<lparr>documents = [], reachable = False\<rparr>, vectorIndex = []\<rparr>"


text \<open>
  An index and a query for which one score overflows: the query is \<open>[2^40, 0]\<close>, and the
  products \<open>2^40 * 2^1000\<close> and \<open>2^1000 * 2^1000\<close> exceed the largest double.
\<close>

definition overflow_index :: LocalVectorIndex where
  "overflow_index = [(''a'', [0, 1]), (''b'', [2 ^ 1000, 0]), (''c'', [2 ^ 40, 0])]"

section \<open>Rounding\<close>

lemma ulp_pos: "0 < ulp x"
  by (simp add: ulp_def)

lemma ulp_binade:
  assumes "2 powr of_int e \<le> \<bar>x\<bar>" "\<bar>x\<bar> < 2 powr of_int (e + 1)"
  shows "ulp x = 2 powr of_int (max e (- 1022) - 52)"
proof -
  have "0 < \<bar>x\<bar>"
    using assms(1) by (smt (verit) powr_gt_zero)
  then have "\<lfloor>log 2 \<bar>x\<bar>\<rfloor> = e"
    using assms by (simp add: floor_log_eq_powr_iff)
  then show ?thesis by (simp add: ulp_def)
qed

lemma rne_int [simp]: "rne (of_int n) = n"
  by (simp add: rne_def)

lemma rne_ge_floor: "\<lfloor>y\<rfloor> \<le> rne y"
  by (simp add: rne_def Let_def)

lemma round_f64_0 [simp]: "round_f64 0 = Fin 0"
  by (simp add: round_f64_def)

text \<open>A power of two between \<open>2^-1022\<close> and \<open>2^1023\<close> is representable.\<close>

lemma round_f64_pow2:
  assumes "- 1022 \<le> e" "e < 1024"
  shows "round_f64 (2 powr of_int e) = Fin (2 powr of_int e)"
proof -
  let ?x = "2 powr of_int e :: real"
  have u: "ulp ?x = 2 powr of_int (e - 52)"
    using ulp_binade [of e ?x] assms by simp
  have "?x / ulp ?x = 2 powr of_int 52"
    unfolding u by (simp add: powr_diff [symmetric])
  also have "\<dots> = of_int (2 ^ 52)"
    by simp
  finally have q: "?x / ulp ?x = of_int (2 ^ 52)" .
  have "of_int (rne (?x / ulp ?x)) * ulp ?x = ?x"
    unfolding q rne_int using q ulp_pos [of ?x] by (simp add: field_simps)
  moreover have "?x < 2 ^ 1024"
  proof -
    have "?x < 2 powr of_int 1024"
      using assms by (intro powr_less_mono) simp_all
    then show ?thesis by simp
  qed
  ultimately show ?thesis
    by (simp add: round_f64_def Let_def)
qed

text \<open>
  Rounding a number whose binade is known, and the doubles it gives for \<open>0.1\<close>, for a tie
  (to the even significand), and at the overflow threshold.
\<close>

lemma round_f64_in_binade:
  assumes "2 powr of_int e \<le> \<bar>x\<bar>" "\<bar>x\<bar> < 2 powr of_int (e + 1)" "x \<noteq> 0"
  shows "round_f64 x =
     (let u = 2 powr of_int (max e (- 1022) - 52); r = of_int (rne (x / u)) * u
      in if 2 ^ 1024 \<le> \<bar>r\<bar> then (if 0 < x then PosInf else NegInf) else Fin r)"
  using ulp_binade [OF assms(1,2)] assms(3) by (simp add: round_f64_def Let_def)

lemma round_f64_tenth: "round_f64 (1 / 10) = Fin (3602879701896397 / 2 ^ 55)"
  using round_f64_in_binade [of "- 4" "1 / 10"]
  by (simp add: powr_minus_divide rne_def Let_def)

lemma round_f64_tie: "round_f64 (2 ^ 53 + 1) = Fin (2 ^ 53)" "round_f64 (2 ^ 53 + 3) = Fin (2 ^ 53 + 4)"
  using round_f64_in_binade [of 53 "2 ^ 53 + 1"] round_f64_in_binade [of 53 "2 ^ 53 + 3"]
  by (simp_all add: rne_def Let_def)

lemma round_f64_threshold:
  "round_f64 (2 ^ 1024 - 2 ^ 971) = Fin (2 ^ 1024 - 2 ^ 971)"
  "round_f64 (2 ^ 1024 - 2 ^ 970) = PosInf"
  using round_f64_in_binade [of 1023 "2 ^ 1024 - 2 ^ 971"]
    round_f64_in_binade [of 1023 "2 ^ 1024 - 2 ^ 970"]
  by (simp_all add: rne_def Let_def)

lemma rounded_ge_pow2:
  assumes "2 powr of_int n \<le> x" "- 1022 \<le> n"
  shows "2 powr of_int n \<le> of_int (rne (x / ulp x)) * ulp x"
proof -
  have xpos: "0 < x"
    using assms(1) by (smt (verit) powr_gt_zero)
  define e where "e = \<lfloor>log 2 \<bar>x\<bar>\<rfloor>"
  have e: "2 powr of_int e \<le> x" "x < 2 powr of_int (e + 1)"
    using xpos floor_log_eq_powr_iff [of "\<bar>x\<bar>" 2 e] by (simp_all add: e_def)
  have "2 powr of_int n < (2::real) powr of_int (e + 1)"
    using assms(1) e(2) by linarith
  then have "(of_int n :: real) < of_int (e + 1)"
    by (rule powr_less_cancel) simp
  then have ne: "n \<le> e"
    by linarith
  have "max e (- 1022) = e"
    using ne assms(2) by simp
  then have "ulp x = 2 powr (of_int e - 52)"
    by (simp add: ulp_def e_def)
  then have u: "ulp x = 2 powr of_int e / 2 ^ 52"
    by (simp add: powr_diff)
  have "2 powr of_int e / ulp x \<le> x / ulp x"
    using e(1) ulp_pos [of x] by (simp add: divide_right_mono)
  moreover have "2 powr of_int e / ulp x = of_int (2 ^ 52)"
    unfolding u by simp
  ultimately have "of_int (2 ^ 52) \<le> x / ulp x" by simp
  then have "2 ^ 52 \<le> \<lfloor>x / ulp x\<rfloor>"
    by (simp add: le_floor_iff)
  then have "2 ^ 52 \<le> rne (x / ulp x)"
    using rne_ge_floor [of "x / ulp x"] by linarith
  then have "(2 ^ 52 :: real) \<le> of_int (rne (x / ulp x))"
    by (metis of_int_le_iff of_int_numeral of_int_power)
  then have "2 ^ 52 * ulp x \<le> of_int (rne (x / ulp x)) * ulp x"
    using ulp_pos [of x] by (simp add: mult_right_mono)
  moreover have "2 ^ 52 * ulp x = 2 powr of_int e"
    unfolding u by simp
  moreover have "(2::real) powr of_int n \<le> 2 powr of_int e"
    using ne by (intro powr_mono) simp_all
  ultimately show ?thesis by linarith
qed

lemma round_f64_large:
  assumes "2 ^ 512 \<le> x"
  shows "round_f64 x = PosInf \<or> (\<exists>d. round_f64 x = Fin d \<and> 2 ^ 512 \<le> d)"
proof -
  have "(2::real) powr of_int 512 = 2 ^ 512" by simp
  then have "2 powr of_int 512 \<le> x"
    using assms by (simp only:)
  then have "2 powr of_int 512 \<le> of_int (rne (x / ulp x)) * ulp x"
    by (rule rounded_ge_pow2) simp
  then have "2 ^ 512 \<le> of_int (rne (x / ulp x)) * ulp x"
    by simp
  moreover have "0 < x"
    using assms by (smt (verit) zero_less_power)
  ultimately show ?thesis
    by (auto simp: round_f64_def Let_def)
qed

lemma round_f64_overflow:
  assumes "2 ^ 1024 \<le> x"
  shows "round_f64 x = PosInf"
proof -
  have "(2::real) powr of_int 1024 = 2 ^ 1024" by simp
  then have "2 powr of_int 1024 \<le> x"
    using assms by (simp only:)
  then have "2 powr of_int 1024 \<le> of_int (rne (x / ulp x)) * ulp x"
    by (rule rounded_ge_pow2) simp
  then have "2 ^ 1024 \<le> of_int (rne (x / ulp x)) * ulp x"
    by simp
  moreover have "0 < x"
    using assms by (smt (verit) zero_less_power)
  ultimately show ?thesis
    by (simp add: round_f64_def Let_def)
qed

lemma square_overflows:
  assumes "2 ^ 512 \<le> d"
  shows "round_f64 (d * d) = PosInf"
proof -
  have "(2 ^ 512) * (2 ^ 512) \<le> d * d"
    using assms by (intro mult_mono) simp_all
  then have "2 ^ 1024 \<le> d * d"
    by simp
  then show ?thesis by (rule round_f64_overflow)
qed

lemma round_f64_tiny:
  assumes "0 < y" "y < 1 / 2 ^ 1075"
  shows "round_f64 y = Fin 0"
proof -
  have p: "(2::real) powr (- 1075) = 1 / 2 ^ 1075"
    by (simp add: powr_minus_divide)
  have "log 2 y < - 1075"
    using assms p by (simp add: log_less_iff)
  then have "\<lfloor>log 2 \<bar>y\<bar>\<rfloor> \<le> - 1022"
    using assms(1) by (simp add: floor_le_iff)
  then have "max \<lfloor>log 2 \<bar>y\<bar>\<rfloor> (- 1022) = - 1022"
    by simp
  then have u: "ulp y = 1 / 2 ^ 1074"
    by (simp add: ulp_def powr_minus_divide)
  have "y / ulp y < 1 / 2" "0 < y / ulp y"
    using assms unfolding u by simp_all
  then have "\<lfloor>y / ulp y\<rfloor> = 0" "y / ulp y - of_int 0 < 1 / 2"
    by (linarith, simp)
  then have "rne (y / ulp y) = 0"
    by (simp only: rne_def Let_def if_True)
  then show ?thesis
    using assms(1) by (simp add: round_f64_def Let_def)
qed

lemma round_f64_inv_pow600: "round_f64 (1 / 2 ^ 600) = Fin (1 / 2 ^ 600)"
proof -
  have "(2::real) powr of_int (- 600) = 1 / 2 ^ 600"
    by (simp add: powr_minus_divide)
  moreover have "round_f64 (2 powr of_int (- 600)) = Fin (2 powr of_int (- 600))"
    by (rule round_f64_pow2) simp_all
  ultimately show ?thesis by (simp only:)
qed

lemma round_f64_pow2_nat:
  assumes "n < 1024"
  shows "round_f64 (2 ^ n) = Fin (2 ^ n)"
proof -
  have "(2::real) powr of_int (int n) = 2 ^ n"
    by (simp add: powr_realpow)
  moreover have "round_f64 (2 powr of_int (int n)) = Fin (2 powr of_int (int n))"
    using assms by (intro round_f64_pow2) simp_all
  ultimately show ?thesis by simp
qed

lemma round_f64_values:
  "round_f64 1 = Fin 1"
  "round_f64 (2 ^ 40) = Fin (2 ^ 40)"
  "round_f64 (2 ^ 80) = Fin (2 ^ 80)"
  "round_f64 (2 ^ 1000) = Fin (2 ^ 1000)"
  using round_f64_pow2_nat [of 0] round_f64_pow2_nat [of 40] round_f64_pow2_nat [of 80]
    round_f64_pow2_nat [of 1000]
  by simp_all

lemma round_f64_overflows:
  "round_f64 (2 ^ 1040) = PosInf" "round_f64 (2 ^ 2000) = PosInf"
  by (rule round_f64_overflow, simp)+

lemma sqrt_pow80: "sqrt (2 ^ 80) = 2 ^ 40"
  by (rule real_sqrt_unique) simp_all

lemmas f64_eval = round_f64_values [simplified] round_f64_overflows [simplified]
  sqrt_pow80 [simplified]

section \<open>Similarity\<close>

lemma cosine_exact_loop_sums:
  "length a = length b \<Longrightarrow>
   cosine_exact_loop a b (d, na, nb) =
     (d + (\<Sum>(x, y) \<leftarrow> zip a b. x * y), na + (\<Sum>x \<leftarrow> a. x * x), nb + (\<Sum>y \<leftarrow> b. y * y))"
  by (induction a b arbitrary: d na nb rule: list_induct2) (simp_all add: algebra_simps)

lemma cosine_exact_eq_spec: "cosine_exact a b = cosine_spec a b"
  by (simp add: cosine_exact_def cosine_spec_def cosine_exact_loop_sums dot_product_def l2_norm_def Let_def)

lemma sum_squares_nonneg: "0 \<le> (\<Sum>x \<leftarrow> (a::Vec). x * x)"
  by (induction a) simp_all

lemma l2_norm_zero_iff: "l2_norm a = 0 \<longleftrightarrow> (\<forall>x \<in> set a. x = 0)"
proof (induction a)
  case Nil
  show ?case by (simp add: l2_norm_def)
next
  case (Cons x a)
  have "x * x + (\<Sum>y \<leftarrow> a. y * y) = 0 \<longleftrightarrow> x = 0 \<and> (\<Sum>y \<leftarrow> a. y * y) = 0"
    using sum_squares_nonneg [of a] by (simp add: add_nonneg_eq_0_iff)
  with Cons show ?case by (simp add: l2_norm_def)
qed

text \<open>
  In exact arithmetic the computation is the dot product divided by the product of the
  two norms, and 0 when the lengths differ or a norm is zero.
\<close>

lemma cosine_exact_is_dot_over_norms:
  "cosine_exact a b =
     (if length a \<noteq> length b \<or> l2_norm a = 0 \<or> l2_norm b = 0 then 0
      else dot_product a b / (l2_norm a * l2_norm b))"
  by (simp add: cosine_exact_eq_spec cosine_spec_def)

text \<open>What \<open>cosine\<close> returns when a square overflows or underflows.\<close>

lemma cosine_zero_against_large:
  assumes "2 ^ 512 \<le> x"
  shows "cosine [0] [x] = NaN"
  using round_f64_large [OF assms]
  by (auto simp: cosine_def square_overflows inf_of_sign_def)

lemma cosine_large_against_itself:
  assumes "2 ^ 512 \<le> x"
  shows "cosine [x] [x] = NaN"
  using round_f64_large [OF assms]
  by (auto simp: cosine_def square_overflows inf_of_sign_def)

lemma cosine_underflow: "cosine [1 / 2 ^ 600] [1 / 2 ^ 600] = Fin 0"
proof -
  have sq: "round_f64 ((1 / 2 ^ 600) * (1 / 2 ^ 600)) = Fin 0"
    by (rule round_f64_tiny) simp_all
  show ?thesis
    unfolding cosine_def by (simp only: round_f64_inv_pow600 list.map cosine_loop.simps
        f64_mul.simps f64_add.simps sq) (simp add: round_f64_inv_pow600)
qed

lemma cosine_spec_self:
  assumes "x \<noteq> 0"
  shows "cosine_spec [x] [x] = 1"
proof -
  have "l2_norm [x] = \<bar>x\<bar>"
    by (simp add: l2_norm_def)
  moreover have "dot_product [x] [x] = \<bar>x\<bar> * \<bar>x\<bar>"
    by (simp add: dot_product_def)
  ultimately show ?thesis
    using assms by (simp add: cosine_spec_def)
qed

lemma cosine_length_mismatch: "length a \<noteq> length b \<Longrightarrow> cosine a b = Fin 0"
  by (simp add: cosine_def)

text \<open>
  C4. The similarity is to be the dot product over the product of the norms, and 0 when
  a vector has norm zero. The source computes in double precision and its guard
  \<open>denom === 0\<close> misses a denominator that is NaN: for the zero vector \<open>[0]\<close> against
  \<open>[1e200]\<close> the square \<open>1e400\<close> overflows, the denominator is \<open>0 * Infinity\<close>, and the result
  is NaN where the norm of \<open>[0]\<close> is zero; \<open>[1e200]\<close> against itself gives NaN, and
  \<open>[2^-600]\<close> against itself gives 0, where the quotient is 1.
\<close>

theorem cosine_overflow_gives_NaN:
  "cosine [0] [10 ^ 200] = NaN \<and> l2_norm [0] = 0
   \<and> cosine [10 ^ 200] [10 ^ 200] = NaN \<and> cosine_spec [10 ^ 200] [10 ^ 200] = 1
   \<and> cosine [1 / 2 ^ 600] [1 / 2 ^ 600] = Fin 0
   \<and> cosine_spec [1 / 2 ^ 600] [1 / 2 ^ 600] = 1"
proof -
  have "cosine [0] [10 ^ 200] = NaN" "cosine [10 ^ 200] [10 ^ 200] = NaN"
    by (simp_all add: cosine_zero_against_large cosine_large_against_itself)
  moreover have "l2_norm [0] = 0"
    by (simp add: l2_norm_def)
  moreover have "cosine_spec [10 ^ 200] [10 ^ 200] = 1"
    "cosine_spec [1 / 2 ^ 600] [1 / 2 ^ 600] = 1"
    by (rule cosine_spec_self, simp)+
  ultimately show ?thesis
    using cosine_underflow by simp
qed

lemma cosine_exact_unit [simp]:
  "cosine_exact [1, 0] [1, 0] = 1" "cosine_exact [1, 0] [0, 1] = 0" "cosine_exact [0, 1] [1, 0] = 0" "cosine_exact [0, 1] [0, 1] = 1"
  by (simp_all add: cosine_exact_def)

section \<open>Properties of the vector index\<close>

lemma sort_insert_insort_key:
  "sort_insert (\<lambda>a b. snd b - snd a) x ys = insort_key (\<lambda>p. - snd p) x (ys :: ('a \<times> real) list)"
  by (induction ys) simp_all

lemma Array_sort_sort_key:
  "Array_sort (\<lambda>a b. snd b - snd a) xs = sort_key (\<lambda>p. - snd p) (xs :: ('a \<times> real) list)"
  by (induction xs) (simp_all add: Array_sort_def sort_insert_insort_key)

lemma sorted_desc_Array_sort:
  "sorted_wrt (\<ge>) (map snd (Array_sort (\<lambda>a b. snd b - snd a) (xs :: ('a \<times> real) list)))"
proof -
  have "sorted (map (\<lambda>p. - snd p) (sort_key (\<lambda>p. - snd p) xs))"
    by (rule sorted_sort_key)
  then show ?thesis
    by (simp add: Array_sort_sort_key sorted_wrt_map sorted_map)
qed

lemma search_length: "length (search q k m) \<le> k"
  by (simp add: search_def)

lemma search_sorted: "sorted_wrt (\<ge>) (map snd (search q k m))"
  using sorted_desc_Array_sort [of "scored q m"]
  by (simp add: search_def take_map [symmetric] sorted_wrt_take)

lemma keys_scored: "map fst (scored q m) = map fst m"
  by (induction m) (auto simp: scored_def)

lemma search_keys: "set (map fst (search q k m)) \<subseteq> fst ` set m"
proof -
  have "set (search q k m) \<subseteq> set (scored q m)"
    using set_take_subset [of k "sort_key (\<lambda>p. - snd p) (scored q m)"]
    by (simp add: search_def Array_sort_sort_key)
  then have "fst ` set (search q k m) \<subseteq> fst ` set (scored q m)"
    by blast
  also have "fst ` set (scored q m) = set (map fst (scored q m))" by simp
  finally show ?thesis by (simp add: keys_scored)
qed

lemma keys_Map_set: "fst ` set (Map_set k v m) = insert k (fst ` set m)"
  by (induction k v m rule: Map_set.induct) (simp_all add: insert_commute insert_absorb)

lemma keys_Map_delete: "fst ` set (Map_delete k m) = fst ` set m - {k}"
  by (auto simp: Map_delete_def)



lemma run_calls_snoc: "run_calls (cs @ [c]) m = snd (invoke c (run_calls cs m))"
  by (simp add: run_calls_def)


lemma keys_run_calls: "i \<in> fst ` set (run_calls cs []) \<longleftrightarrow> upserted_not_deleted cs i"
proof (induction cs rule: rev_induct)
  case Nil
  show ?case by (simp add: run_calls_def upserted_not_deleted_def)
next
  case (snoc c cs)
  then show ?case
    by (cases c) (auto simp: run_calls_snoc clear_def upsert_def delete_def
        keys_Map_set keys_Map_delete upserted_not_deleted_def)
qed

lemma upserted_not_deleted_positions:
  "upserted_not_deleted cs i \<longleftrightarrow>
     (\<exists>n < length cs. (\<exists>v. cs ! n = Upsert i v) \<and>
        (\<forall>j. n < j \<and> j < length cs \<longrightarrow> cs ! j \<noteq> Delete i \<and> cs ! j \<noteq> Clear))"
  (is "_ \<longleftrightarrow> ?P cs")
proof (induction cs rule: rev_induct)
  case Nil
  show ?case by (simp add: upserted_not_deleted_def)
next
  case (snoc c cs)
  then show ?case
    by (cases c) (auto simp: upserted_not_deleted_def nth_append less_Suc_eq split: if_splits)
qed

text \<open>
  With exact scores, for every query, every \<open>k\<close> and every index state produced by a
  finite sequence of calls, \<open>search\<close> returns at most \<open>k\<close> pairs, in order of non-increasing
  score, and every id it returns was upserted by some call and neither deleted nor
  cleared by a later one.
\<close>

lemma search_at_most_k_sorted_live:
  "length (search q k (run_calls cs [])) \<le> k
   \<and> sorted_wrt (\<ge>) (map snd (search q k (run_calls cs [])))
   \<and> (\<forall>i \<in> set (map fst (search q k (run_calls cs []))). upserted_not_deleted cs i)"
  using search_keys [of q k "run_calls cs []"] keys_run_calls [of _ cs]
  by (auto simp: search_length search_sorted)

text \<open>
  In double precision the bound \<open>k\<close> and the origin of the ids do not depend on the
  scores or on the order the sort leaves.
\<close>

lemma search_f64_at_most_k_live:
  assumes "\<And>cmp xs. set (sort_impl cmp xs) = set xs \<and> length (sort_impl cmp xs) = length xs"
  shows "length (search_f64 sort_impl q k (run_calls cs [])) \<le> k
    \<and> (\<forall>i \<in> set (map fst (search_f64 sort_impl q k (run_calls cs []))).
          upserted_not_deleted cs i)"
proof -
  let ?m = "run_calls cs []"
  let ?p = "sort_impl (\<lambda>a b. f64_sub (snd b) (snd a)) (scored_f64 q ?m)"
  have "set (take k ?p) \<subseteq> set ?p"
    by (rule set_take_subset)
  also have "set ?p = set (scored_f64 q ?m)"
    using assms by simp
  finally have "fst ` set (take k ?p) \<subseteq> fst ` set (scored_f64 q ?m)"
    by blast
  also have "fst ` set (scored_f64 q ?m) = fst ` set ?m"
    by (force simp: scored_f64_def)
  finally show ?thesis
    using keys_run_calls [of _ cs] by (auto simp: search_f64_def)
qed

lemma overflow_scores:
  "scored_f64 [2 ^ 40, 0] overflow_index = [(''a'', Fin 0), (''b'', NaN), (''c'', Fin 1)]"
  by (simp add: scored_f64_def overflow_index_def cosine_def f64_eval inf_of_sign_def)

lemma NaN_never_sorted:
  assumes "NaN \<in> set xs" "2 \<le> length xs"
  shows "\<not> sorted_wrt f64_ge xs"
proof
  assume s: "sorted_wrt f64_ge xs"
  obtain i where i: "i < length xs" "xs ! i = NaN"
    using assms(1) by (auto simp: in_set_conv_nth)
  obtain j where j: "j < length xs" "j \<noteq> i"
    using assms(2) by (cases "i = 0") (auto intro: that [of 0] that [of 1])
  show False
  proof (cases "i < j")
    case True
    then have "f64_ge (xs ! i) (xs ! j)"
      using s j(1) by (simp add: sorted_wrt_iff_nth_less)
    then show False using i(2) by simp
  next
    case False
    then have "j < i" using j(2) by simp
    then have "f64_ge (xs ! j) (xs ! i)"
      using s i(1) by (simp add: sorted_wrt_iff_nth_less)
    then show False using i(2) by (cases "xs ! j") simp_all
  qed
qed

text \<open>
  C2. \<open>search\<close> is to return its pairs in order of non-increasing score. For the query
  \<open>[2^40, 0]\<close> on \<open>overflow_index\<close> the score of \<open>b\<close> is NaN, since \<open>Infinity / Infinity\<close> is
  NaN, and whatever rearrangement the sort of the engine leaves, the three pairs
  returned for \<open>k = 3\<close> are not in non-increasing order of score.
\<close>

theorem search_with_NaN_score_is_not_sorted:
  assumes "\<And>cmp xs. set (sort_impl cmp xs) = set xs \<and> length (sort_impl cmp xs) = length xs"
  shows "\<not> sorted_wrt f64_ge (map snd (search_f64 sort_impl [2 ^ 40, 0] 3 overflow_index))"
proof -
  let ?p = "sort_impl (\<lambda>a b. f64_sub (snd b) (snd a)) (scored_f64 [2 ^ 40, 0] overflow_index)"
  have perm: "set (sort_impl cmp xs) = set xs" "length (sort_impl cmp xs) = length xs" for cmp xs
    using assms by simp_all
  have len: "length ?p = 3"
    unfolding perm overflow_scores by simp
  have "(''b'', NaN) \<in> set ?p"
    unfolding perm overflow_scores by simp
  then have "NaN \<in> set (map snd ?p)"
    by force
  moreover have "2 \<le> length (map snd ?p)"
    using len by simp
  ultimately have ns: "\<not> sorted_wrt f64_ge (map snd ?p)"
    by (rule NaN_never_sorted)
  have tk: "take 3 ?p = ?p"
    using len by simp
  show ?thesis
    unfolding search_f64_def tk by (rule ns)
qed

theorem search_with_NaN_score_is_not_sorted_witness:
  "map snd (search_f64 (\<lambda>cmp xs. xs) [2 ^ 40, 0] 3 overflow_index) = [Fin 0, NaN, Fin 1]
   \<and> \<not> sorted_wrt f64_ge (map snd (search_f64 (\<lambda>cmp xs. xs) [2 ^ 40, 0] 3 overflow_index))"
proof -
  have "map snd (search_f64 (\<lambda>cmp xs. xs) [2 ^ 40, 0] 3 overflow_index) = [Fin 0, NaN, Fin 1]"
    unfolding search_f64_def overflow_scores by simp
  then show ?thesis
    using search_with_NaN_score_is_not_sorted [of "\<lambda>cmp xs. xs"] by simp
qed





section \<open>Properties of search\<close>

lemma map_of_by_key: "map_of (map (\<lambda>d. (key d, d)) ys) i = find (\<lambda>d. key d = i) ys"
  by (induction ys) auto

lemma find_filter: "find Q (filter P ys) = find (\<lambda>d. Q d \<and> P d) ys"
  by (induction ys) auto

lemma map_filter_cong_set:
  "(\<And>x. x \<in> set xs \<Longrightarrow> f x = g x) \<Longrightarrow> List.map_filter f xs = List.map_filter g xs"
proof (induction xs)
  case Nil
  show ?case by (simp add: List.map_filter_simps)
next
  case (Cons a xs)
  have "List.map_filter f xs = List.map_filter g xs" "f a = g a"
    using Cons by simp_all
  then show ?case by (simp add: List.map_filter_simps split: option.splits)
qed

lemma set_map_filter_find: "set (List.map_filter f xs) = {y. \<exists>x \<in> set xs. f x = Some y}"
  by (induction xs) (auto simp: List.map_filter_simps split: option.splits)

lemma docMap_get:
  "i \<in> set ids \<Longrightarrow>
   map_of (rev (map (\<lambda>d. (memory_id d, d)) (filter (scopeFilter uid aid ids) docs))) i
     = find (\<lambda>d. memory_id d = i \<and> eligible uid aid d) (rev docs)"
proof -
  assume i: "i \<in> set ids"
  have "map_of (rev (map (\<lambda>d. (memory_id d, d)) (filter (scopeFilter uid aid ids) docs))) i
        = find (\<lambda>d. memory_id d = i) (filter (scopeFilter uid aid ids) (rev docs))"
    by (simp add: rev_map rev_filter map_of_by_key)
  also have "\<dots> = find (\<lambda>d. memory_id d = i \<and> scopeFilter uid aid ids d) (rev docs)"
    by (rule find_filter)
  also have "\<dots> = find (\<lambda>d. memory_id d = i \<and> eligible uid aid d) (rev docs)"
    using i by (intro find_cong) (auto simp: scopeFilter_def eligible_def)
  finally show ?thesis .
qed

lemma ranked_fetch_reachable:
  assumes "reachable (memoryCollection w)"
  shows "ranked_fetch uid aid q k w =
           Inr (map returned_fields
                  (fetched uid aid (map fst (search q k (vectorIndex w)))
                     (documents (memoryCollection w))))"
proof (cases "search q k (vectorIndex w) = []")
  case True
  then show ?thesis
    by (simp add: ranked_fetch_def fetched_def List.map_filter_simps)
next
  case False
  have "List.map_filter
          (map_of (rev (map (\<lambda>d. (memory_id d, d))
             (filter (scopeFilter uid aid (map fst (search q k (vectorIndex w))))
                (documents (memoryCollection w))))))
          (map fst (search q k (vectorIndex w)))
        = fetched uid aid (map fst (search q k (vectorIndex w))) (documents (memoryCollection w))"
    unfolding fetched_def by (rule map_filter_cong_set) (rule docMap_get)
  with False assms show ?thesis
    by (simp add: ranked_fetch_def find_toArray_def Let_def)
qed

lemma find_Some_D: "find P xs = Some x \<Longrightarrow> x \<in> set xs \<and> P x"
  by (induction xs) (auto split: if_splits)

lemma find_None_D: "find P xs = None \<Longrightarrow> x \<in> set xs \<Longrightarrow> \<not> P x"
  by (induction xs) (auto split: if_splits)

lemma set_fetched:
  "set (fetched uid aid ids docs) \<subseteq> {d \<in> set docs. memory_id d \<in> set ids \<and> eligible uid aid d}"
  by (auto simp: fetched_def set_map_filter_find dest!: find_Some_D)



lemma fetched_distinct_ids:
  assumes "distinct (map memory_id docs)" "d \<in> set docs" "memory_id d \<in> set ids"
    "eligible uid aid d"
  shows "d \<in> set (fetched uid aid ids docs)"
proof -
  obtain d' where f: "find (\<lambda>x. memory_id x = memory_id d \<and> eligible uid aid x) (rev docs) = Some d'"
    using assms(2,4) find_None_D [of "\<lambda>x. memory_id x = memory_id d \<and> eligible uid aid x" "rev docs" d]
    by (cases "find (\<lambda>x. memory_id x = memory_id d \<and> eligible uid aid x) (rev docs)") auto
  then have "d' \<in> set docs" "memory_id d' = memory_id d"
    using find_Some_D [OF f] by simp_all
  moreover have "inj_on memory_id (set docs)"
    using assms(1) by (simp add: distinct_map)
  ultimately have "d' = d"
    using assms(2) by (auto dest: inj_onD)
  with f assms(3) show ?thesis
    by (force simp: fetched_def set_map_filter_find)
qed

lemma returned_fields_inj_id: "returned_fields d = returned_fields d' \<Longrightarrow> memory_id d = memory_id d'"
  by (simp add: returned_fields_def)

lemma memory_id_returned_fields [simp]: "memory_id (returned_fields d) = memory_id d"
  by (simp add: returned_fields_def)

text \<open>
  The entry points reduce to the shared bodies: a tool call whose arguments pass the
  schema, and a REST request that passes the checks of its route, run \<open>ranked_fetch\<close>,
  \<open>add_memory_handler\<close> and \<open>delete_memory\<close> on the same arguments.
\<close>

lemma search_memories_valid:
  "search_memories_schema args \<Longrightarrow>
   search_memories args w =
     ranked_fetch (search_user_id args) (search_agent_id args) (query_embedding args)
       (case top_k args of None \<Rightarrow> 5 | Some k \<Rightarrow> k) w"
  by (simp add: search_memories_def search_memories_handler_def)

lemma post_v1_search_valid:
  "sbody_user_id body = Some uid \<Longrightarrow> uid \<noteq> [] \<Longrightarrow>
   sbody_query_embedding body = Some (Array q) \<Longrightarrow> q \<noteq> [] \<Longrightarrow>
   post_v1_search body w =
     ranked_fetch uid (sbody_agent_id body) q
       (nat (max 1 (min (case sbody_top_k body of None \<Rightarrow> 5 | Some k \<Rightarrow> k) 50))) w"
  by (simp add: post_v1_search_def)

lemma add_memory_valid:
  "add_memory_schema args \<Longrightarrow> add_memory uuid now args w = add_memory_handler uuid now args w"
  by (simp add: add_memory_def)

lemma post_v1_memories_valid:
  "body_user_id body = Some uid \<Longrightarrow> body_scope body = Some sc \<Longrightarrow>
   body_encrypted_text body = Some txt \<Longrightarrow> body_embedding body = Some (Array emb) \<Longrightarrow>
   emb \<noteq> [] \<Longrightarrow>
   post_v1_memories uuid now body w =
     add_memory_handler uuid now
       \<lparr>arg_user_id = uid, arg_agent_id = body_agent_id body, arg_scope = sc,
        arg_encrypted_text = txt, arg_embedding = emb,
        arg_embedding_model = body_embedding_model body\<rparr> w"
  by (simp add: post_v1_memories_def)

lemma delete_v1_memories_valid:
  "uid \<noteq> [] \<Longrightarrow> delete_v1_memories mid (Some uid) w = delete_memory uid mid w"
  by (simp add: delete_v1_memories_def)

lemma two_users_world_eq:
  "two_users_world =
     \<lparr>memoryCollection =
        \<lparr>documents =
           [new_doc ''m-bob'' 1 (memo ''bob'' None ''global'' [1, 0]),
            new_doc ''m-alice'' 2 (memo ''alice'' None ''global'' [0, 1])],
         reachable = True\<rparr>,
      vectorIndex = [(''m-bob'', [1, 0]), (''m-alice'', [0, 1])]\<rparr>"
  by (simp add: two_users_world_def empty_world_def add_memory_def add_memory_schema_def
      add_memory_handler_def add_memory_body_def insertOne_def upsert_def memo_def)

lemma scoped_world_eq:
  "scoped_world =
     \<lparr>memoryCollection =
        \<lparr>documents =
           [new_doc ''m-agent-A'' 1 (memo ''alice'' (Some ''A'') ''agent'' [1, 0]),
            new_doc ''m-orphan'' 2 (memo ''alice'' None ''agent'' [1, 0]),
            new_doc ''m-global'' 3 (memo ''alice'' (Some ''A'') ''global'' [1, 0])],
         reachable = True\<rparr>,
      vectorIndex = [(''m-agent-A'', [1, 0]), (''m-orphan'', [1, 0]), (''m-global'', [1, 0])]\<rparr>"
  by (simp add: scoped_world_def empty_world_def add_memory_def add_memory_schema_def
      add_memory_handler_def add_memory_body_def insertOne_def upsert_def memo_def)

lemmas eval_fetch = ranked_fetch_def find_toArray_def scopeFilter_def scope_rule_def
  search_def scored_def Array_sort_def new_doc_def memo_def returned_fields_def

text \<open>
  C1. For every search by \<open>uid\<close> and \<open>aid\<close> (\<open>None\<close> when the request has no agent id), a
  stored record whose id is among the ranked candidates is in the reply exactly when it
  is owned by \<open>uid\<close> and its scope is \<open>global\<close>, or its scope is \<open>agent\<close> and its agent id
  equals \<open>aid\<close>; a record stored without agent id has agent id \<open>None\<close>. Memory ids are
  unique in the store.
\<close>

theorem search_includes_iff_scope_eligible:
  assumes "reachable (memoryCollection w)"
    and "distinct (map memory_id (documents (memoryCollection w)))"
    and "d \<in> set (documents (memoryCollection w))"
    and "memory_id d \<in> set (map fst (search q k (vectorIndex w)))"
  shows "\<exists>ms. ranked_fetch uid aid q k w = Inr ms \<and>
           (returned_fields d \<in> set ms \<longleftrightarrow>
              user_id d = uid \<and>
              (scope d = ''global'' \<or> (scope d = ''agent'' \<and> agent_id d = aid)))"
proof -
  let ?docs = "documents (memoryCollection w)"
  let ?ids = "map fst (search q k (vectorIndex w))"
  let ?ms = "map returned_fields (fetched uid aid ?ids ?docs)"
  have inj: "inj_on memory_id (set ?docs)"
    using assms(2) by (simp add: distinct_map)
  have "returned_fields d \<in> set ?ms \<longleftrightarrow> eligible uid aid d"
  proof
    assume "returned_fields d \<in> set ?ms"
    then obtain d' where d': "d' \<in> set (fetched uid aid ?ids ?docs)"
      "returned_fields d' = returned_fields d"
      by auto
    then have "d' \<in> set ?docs" "eligible uid aid d'"
      using set_fetched [of uid aid ?ids ?docs] by auto
    moreover have "memory_id d' = memory_id d"
      using d'(2) by (rule returned_fields_inj_id)
    ultimately show "eligible uid aid d"
      using inj assms(3) by (auto dest: inj_onD)
  next
    assume "eligible uid aid d"
    then have "d \<in> set (fetched uid aid ?ids ?docs)"
      using assms(2,3,4) by (intro fetched_distinct_ids)
    then show "returned_fields d \<in> set ?ms" by simp
  qed
  then show ?thesis
    using ranked_fetch_reachable [OF assms(1), of uid aid q k]
    by (simp add: eligible_def scope_rule_def)
qed

theorem search_includes_iff_scope_eligible_witness:
  "reachable (memoryCollection scoped_world)
   \<and> distinct (map memory_id (documents (memoryCollection scoped_world)))
   \<and> new_doc ''m-orphan'' 2 (memo ''alice'' None ''agent'' [1, 0])
        \<in> set (documents (memoryCollection scoped_world))
   \<and> ''m-orphan'' \<in> set (map fst (search [1, 0] 3 (vectorIndex scoped_world)))
   \<and> map memory_id (projr (ranked_fetch ''alice'' None [1, 0] 3 scoped_world))
        = [''m-orphan'', ''m-global'']
   \<and> map memory_id (projr (ranked_fetch ''alice'' (Some ''A'') [1, 0] 3 scoped_world))
        = [''m-agent-A'', ''m-global'']
   \<and> map memory_id (projr (ranked_fetch ''alice'' (Some ''B'') [1, 0] 3 scoped_world))
        = [''m-global'']"
  using search_includes_iff_scope_eligible [of scoped_world
      "new_doc ''m-orphan'' 2 (memo ''alice'' None ''agent'' [1, 0])" "[1, 0]" 3 "''alice''" None]
  by (simp add: scoped_world_eq eval_fetch)






text \<open>
  C10. The ranking is taken over the one index that holds the vectors of all users.
  Every returned record is owned by the requester, and no record of another user is among
  the returned ids. Records of other users do take candidate slots: in \<open>two_users_world\<close>
  the only candidate for \<open>k = 1\<close> is bob's record, and alice, who owns one eligible
  record, receives none.
\<close>

theorem other_users_rank_but_are_never_returned:
  assumes "reachable (memoryCollection w)"
    and "distinct (map memory_id (documents (memoryCollection w)))"
  shows "(\<exists>ms. ranked_fetch uid aid q k w = Inr ms
            \<and> (\<forall>m \<in> set ms. \<exists>d \<in> set (documents (memoryCollection w)).
                   user_id d = uid \<and> m = returned_fields d)
            \<and> (\<forall>d \<in> set (documents (memoryCollection w)).
                   user_id d \<noteq> uid \<longrightarrow> memory_id d \<notin> set (map memory_id ms)))
         \<and> map fst (search [1, 0] 1 (vectorIndex two_users_world)) = [''m-bob'']
         \<and> length (filter (eligible ''alice'' None) (documents (memoryCollection two_users_world))) = 1
         \<and> ranked_fetch ''alice'' None [1, 0] 1 two_users_world = Inr []"
proof -
  let ?docs = "documents (memoryCollection w)"
  let ?ids = "map fst (search q k (vectorIndex w))"
  let ?ms = "map returned_fields (fetched uid aid ?ids ?docs)"
  have inj: "inj_on memory_id (set ?docs)"
    using assms(2) by (simp add: distinct_map)
  have sub: "set (fetched uid aid ?ids ?docs) \<subseteq> {d \<in> set ?docs. user_id d = uid}"
    using set_fetched [of uid aid ?ids ?docs] by (auto simp: eligible_def)
  have 1: "ranked_fetch uid aid q k w = Inr ?ms"
    using assms(1) by (rule ranked_fetch_reachable)
  have 2: "\<forall>m \<in> set ?ms. \<exists>d \<in> set ?docs. user_id d = uid \<and> m = returned_fields d"
    using sub by auto
  have 3: "\<forall>d \<in> set ?docs. user_id d \<noteq> uid \<longrightarrow> memory_id d \<notin> set (map memory_id ?ms)"
  proof (intro ballI impI notI)
    fix d assume d: "d \<in> set ?docs" "user_id d \<noteq> uid" "memory_id d \<in> set (map memory_id ?ms)"
    then obtain d' where d': "d' \<in> set (fetched uid aid ?ids ?docs)" "memory_id d' = memory_id d"
      by (auto simp: comp_def)
    then have "d' \<in> set ?docs" "user_id d' = uid"
      using sub by auto
    then show False
      using d d'(2) inj by (auto dest: inj_onD)
  qed
  have 4: "map fst (search [1, 0] 1 (vectorIndex two_users_world)) = [''m-bob'']"
    by (simp add: two_users_world_eq search_def scored_def Array_sort_def)
  have 5: "length (filter (eligible ''alice'' None) (documents (memoryCollection two_users_world))) = 1"
    by (simp add: two_users_world_eq eligible_def scope_rule_def new_doc_def memo_def)
  have 6: "ranked_fetch ''alice'' None [1, 0] 1 two_users_world = Inr []"
    by (simp add: two_users_world_eq eval_fetch List.map_filter_simps)
  from 1 2 3 4 5 6 show ?thesis by blast
qed

theorem other_users_rank_but_are_never_returned_witness:
  "reachable (memoryCollection two_users_world)
   \<and> distinct (map memory_id (documents (memoryCollection two_users_world)))
   \<and> map fst (search [1, 0] 2 (vectorIndex two_users_world)) = [''m-bob'', ''m-alice'']
   \<and> map memory_id (projr (ranked_fetch ''alice'' None [1, 0] 2 two_users_world)) = [''m-alice'']
   \<and> map user_id (documents (memoryCollection two_users_world)) = [''bob'', ''alice'']"
  using other_users_rank_but_are_never_returned [of two_users_world "''alice''" None "[1, 0]" 2]
  by (simp add: two_users_world_eq eval_fetch)

section \<open>Properties of the write paths\<close>

text \<open>
  C5. A call of the tool \<open>add_memory\<close> with an empty embedding is rejected with a validation
  error, and a \<open>POST /v1/memories\<close> request with an empty embedding array is answered
  with status 400; in both cases the collection and the vector index are left as they
  were.
\<close>

theorem add_memory_rejects_empty_embedding:
  "(arg_embedding args = [] \<longrightarrow> add_memory uuid now args w = (Inl ValidationError, w))
   \<and> (body_embedding body = Some (Array []) \<longrightarrow>
        (\<exists>msg. post_v1_memories uuid now body w = (Inl (BadRequest msg), w)))"
  by (simp add: add_memory_def add_memory_schema_def post_v1_memories_def split: option.splits)

theorem add_memory_rejects_empty_embedding_witness:
  "add_memory ''m-3'' 3 (memo ''alice'' None ''global'' []) two_users_world
     = (Inl ValidationError, two_users_world)
   \<and> post_v1_memories ''m-3'' 3
        \<lparr>body_user_id = Some ''alice'', body_agent_id = None, body_scope = Some ''global'',
         body_encrypted_text = Some ''ciphertext'', body_embedding = Some (Array []),
         body_embedding_model = None\<rparr> two_users_world
     = (Inl (BadRequest ''embedding must be number[]''), two_users_world)"
  using add_memory_rejects_empty_embedding [of "memo ''alice'' None ''global'' []" "''m-3''" 3
      two_users_world
      "\<lparr>body_user_id = Some ''alice'', body_agent_id = None, body_scope = Some ''global'',
         body_encrypted_text = Some ''ciphertext'', body_embedding = Some (Array []),
         body_embedding_model = None\<rparr>"]
  by (simp add: memo_def post_v1_memories_def)

lemma run_add_prefix:
  "run_effects (take n (add_memory_body uuid now args)) w =
     (if n = 0 then (None, w)
      else if \<not> reachable (memoryCollection w) then (Some StoreError, w)
      else if n = 1 then
        (None, w\<lparr>memoryCollection :=
                   (memoryCollection w)\<lparr>documents :=
                      documents (memoryCollection w) @ [new_doc uuid now args]\<rparr>\<rparr>)
      else
        (None, w\<lparr>memoryCollection :=
                   (memoryCollection w)\<lparr>documents :=
                      documents (memoryCollection w) @ [new_doc uuid now args]\<rparr>,
                 vectorIndex := upsert uuid (arg_embedding args) (vectorIndex w)\<rparr>))"
proof -
  consider "n = 0" | "n = 1" | "n \<ge> 2" by linarith
  then show ?thesis
  proof cases
    case 1
    then show ?thesis by simp
  next
    case 2
    then show ?thesis by (simp add: add_memory_body_def insertOne_def)
  next
    case 3
    then have "take n (add_memory_body uuid now args) = add_memory_body uuid now args"
      by (simp add: add_memory_body_def)
    with 3 show ?thesis by (simp add: add_memory_body_def insertOne_def)
  qed
qed

text \<open>
  C7. In the body of \<open>add_memory\<close> the insert into the collection comes before the upsert
  into the index. After none or one of its statements the index is as before the call;
  after the first statement alone the document is stored and not indexed; when the
  collection fails, the call fails and both stores are unchanged; and at whatever
  statement the body stops, an index that differs from the one before the call goes with
  a stored document.
\<close>

theorem add_memory_persists_before_indexing:
  "(\<forall>n \<le> 1. vectorIndex (snd (run_effects (take n (add_memory_body uuid now args)) w))
               = vectorIndex w)
   \<and> (reachable (memoryCollection w) \<longrightarrow>
        run_effects (take 1 (add_memory_body uuid now args)) w =
          (None, w\<lparr>memoryCollection :=
                     (memoryCollection w)\<lparr>documents :=
                        documents (memoryCollection w) @ [new_doc uuid now args]\<rparr>\<rparr>))
   \<and> (\<not> reachable (memoryCollection w) \<longrightarrow>
        add_memory_handler uuid now args w = (Inl StoreError, w))
   \<and> (\<forall>n. vectorIndex (snd (run_effects (take n (add_memory_body uuid now args)) w))
               \<noteq> vectorIndex w \<longrightarrow>
            new_doc uuid now args \<in> set (documents (memoryCollection
              (snd (run_effects (take n (add_memory_body uuid now args)) w)))))"
proof (intro conjI allI impI)
  fix n :: nat assume "n \<le> 1"
  then show "vectorIndex (snd (run_effects (take n (add_memory_body uuid now args)) w))
               = vectorIndex w"
    by (simp add: run_add_prefix)
next
  assume "reachable (memoryCollection w)"
  then show "run_effects (take 1 (add_memory_body uuid now args)) w =
          (None, w\<lparr>memoryCollection :=
                     (memoryCollection w)\<lparr>documents :=
                        documents (memoryCollection w) @ [new_doc uuid now args]\<rparr>\<rparr>)"
    by (simp add: run_add_prefix)
next
  assume "\<not> reachable (memoryCollection w)"
  then show "add_memory_handler uuid now args w = (Inl StoreError, w)"
    using run_add_prefix [of 2 uuid now args w]
    by (simp add: add_memory_handler_def add_memory_body_def)
next
  fix n
  assume "vectorIndex (snd (run_effects (take n (add_memory_body uuid now args)) w))
               \<noteq> vectorIndex w"
  then show "new_doc uuid now args \<in> set (documents (memoryCollection
              (snd (run_effects (take n (add_memory_body uuid now args)) w))))"
    by (simp add: run_add_prefix split: if_splits)
qed

theorem add_memory_persists_before_indexing_witness:
  "add_memory_handler ''m-1'' 1 (memo ''alice'' None ''global'' [1, 0]) offline_world
     = (Inl StoreError, offline_world)
   \<and> run_effects (take 1 (add_memory_body ''m-1'' 1 (memo ''alice'' None ''global'' [1, 0])))
        empty_world
     = (None, \<lparr>memoryCollection =
                 \<lparr>documents = [new_doc ''m-1'' 1 (memo ''alice'' None ''global'' [1, 0])],
                  reachable = True\<rparr>,
               vectorIndex = []\<rparr>)
   \<and> vectorIndex (snd (add_memory_handler ''m-1'' 1 (memo ''alice'' None ''global'' [1, 0])
        empty_world)) = [(''m-1'', [1, 0])]
   \<and> documents (memoryCollection (snd (add_memory_handler ''m-1'' 1
        (memo ''alice'' None ''global'' [1, 0]) empty_world)))
       = [new_doc ''m-1'' 1 (memo ''alice'' None ''global'' [1, 0])]"
  using add_memory_persists_before_indexing [of "''m-1''" 1 "memo ''alice'' None ''global'' [1, 0]"
      offline_world]
    add_memory_persists_before_indexing [of "''m-1''" 1 "memo ''alice'' None ''global'' [1, 0]"
      empty_world]
  by (simp add: offline_world_def empty_world_def add_memory_handler_def add_memory_body_def
      insertOne_def upsert_def memo_def)

lemma remove_first_none: "\<forall>x \<in> set xs. \<not> P x \<Longrightarrow> remove_first P xs = xs"
  by (induction xs) auto

lemma remove_first_split:
  "\<exists>x \<in> set xs. P x \<Longrightarrow>
   \<exists>pre x post. xs = pre @ x # post \<and> P x \<and> (\<forall>y \<in> set pre. \<not> P y)
      \<and> remove_first P xs = pre @ post"
proof (induction xs)
  case Nil
  then show ?case by simp
next
  case (Cons a xs)
  show ?case
  proof (cases "P a")
    case True
    then have "a # xs = [] @ a # xs \<and> P a \<and> (\<forall>y \<in> set []. \<not> P y)
        \<and> remove_first P (a # xs) = [] @ xs"
      by simp
    then show ?thesis by blast
  next
    case False
    with Cons.prems have "\<exists>x \<in> set xs. P x" by auto
    then obtain pre x post where
      "xs = pre @ x # post" "P x" "\<forall>y \<in> set pre. \<not> P y" "remove_first P xs = pre @ post"
      using Cons.IH by blast
    with False have "a # xs = (a # pre) @ x # post \<and> P x \<and> (\<forall>y \<in> set (a # pre). \<not> P y)
        \<and> remove_first P (a # xs) = (a # pre) @ post"
      by simp
    then show ?thesis by blast
  qed
qed

lemma remove_first_keeps: "x \<in> set xs \<Longrightarrow> \<not> P x \<Longrightarrow> x \<in> set (remove_first P xs)"
  by (induction xs) auto

lemma delete_memory_reachable:
  "reachable (memoryCollection w) \<Longrightarrow>
   delete_memory uid mid w =
     (Inr True,
      w\<lparr>memoryCollection :=
           (memoryCollection w)\<lparr>documents :=
              remove_first (\<lambda>d. user_id d = uid \<and> memory_id d = mid)
                (documents (memoryCollection w))\<rparr>,
        vectorIndex := delete mid (vectorIndex w)\<rparr>)"
  by (simp add: delete_memory_def delete_memory_body_def deleteOne_def)

text \<open>
  C6. When the collection answers, \<open>delete_memory\<close> replies \<open>deleted: true\<close>; the id is
  removed from the vector index whether or not a document matched; from the collection
  it removes one document that matches both \<open>user_id\<close> and \<open>memory_id\<close>, if there is one;
  every document that does not match both stays; and when no document matches, the
  collection is unchanged.
\<close>

theorem delete_memory_removes_own_record_and_index_entry:
  assumes "reachable (memoryCollection w)"
  shows "\<exists>w'. delete_memory uid mid w = (Inr True, w')
     \<and> vectorIndex w' = delete mid (vectorIndex w)
     \<and> mid \<notin> fst ` set (vectorIndex w')
     \<and> ((\<forall>d \<in> set (documents (memoryCollection w)). \<not> (user_id d = uid \<and> memory_id d = mid))
          \<longrightarrow> memoryCollection w' = memoryCollection w)
     \<and> ((\<exists>d \<in> set (documents (memoryCollection w)). user_id d = uid \<and> memory_id d = mid)
          \<longrightarrow> (\<exists>pre d post. documents (memoryCollection w) = pre @ d # post
                 \<and> user_id d = uid \<and> memory_id d = mid
                 \<and> documents (memoryCollection w') = pre @ post))
     \<and> (\<forall>d \<in> set (documents (memoryCollection w)).
           \<not> (user_id d = uid \<and> memory_id d = mid)
           \<longrightarrow> d \<in> set (documents (memoryCollection w')))"
proof -
  let ?P = "\<lambda>d. user_id d = uid \<and> memory_id d = mid"
  let ?docs = "documents (memoryCollection w)"
  let ?w' = "w\<lparr>memoryCollection := (memoryCollection w)\<lparr>documents := remove_first ?P ?docs\<rparr>,
        vectorIndex := delete mid (vectorIndex w)\<rparr>"
  have 1: "delete_memory uid mid w = (Inr True, ?w')"
    using assms by (rule delete_memory_reachable)
  have 2: "vectorIndex ?w' = delete mid (vectorIndex w)" by simp
  have 3: "mid \<notin> fst ` set (vectorIndex ?w')"
    by (simp add: delete_def keys_Map_delete)
  have 4: "(\<forall>d \<in> set ?docs. \<not> ?P d) \<longrightarrow> memoryCollection ?w' = memoryCollection w"
    by (simp add: remove_first_none)
  have 5: "(\<exists>d \<in> set ?docs. ?P d) \<longrightarrow>
      (\<exists>pre d post. ?docs = pre @ d # post \<and> user_id d = uid \<and> memory_id d = mid
         \<and> documents (memoryCollection ?w') = pre @ post)"
    using remove_first_split [of ?docs ?P] by fastforce
  have 6: "\<forall>d \<in> set ?docs. \<not> ?P d \<longrightarrow> d \<in> set (documents (memoryCollection ?w'))"
    by (simp add: remove_first_keeps)
  from 1 2 3 4 5 6 show ?thesis by blast
qed

theorem delete_memory_removes_own_record_and_index_entry_witness:
  "reachable (memoryCollection two_users_world)
   \<and> fst (delete_memory ''alice'' ''m-bob'' two_users_world) = Inr True
   \<and> memoryCollection (snd (delete_memory ''alice'' ''m-bob'' two_users_world))
       = memoryCollection two_users_world
   \<and> vectorIndex (snd (delete_memory ''alice'' ''m-bob'' two_users_world))
       = [(''m-alice'', [0, 1])]
   \<and> map memory_id (documents (memoryCollection
        (snd (delete_memory ''bob'' ''m-bob'' two_users_world)))) = [''m-alice'']
   \<and> vectorIndex (snd (delete_memory ''bob'' ''m-bob'' two_users_world))
       = [(''m-alice'', [0, 1])]"
  using delete_memory_removes_own_record_and_index_entry [of two_users_world "''alice''" "''m-bob''"]
  by (simp add: two_users_world_eq delete_memory_def delete_memory_body_def deleteOne_def
      delete_def Map_delete_def new_doc_def memo_def)

section \<open>Rebuild and replay\<close>








text \<open>
  The order of the replay matters for entries with equal scores: upserting the same two
  entries in the opposite order changes which of them a search with \<open>k = 1\<close> returns.
\<close>

lemma replay_order_matters:
  "search [1, 0] 1 (replay (rev [(''a'', [1, 0]), (''b'', [1, 0])]) [])
     \<noteq> search [1, 0] 1 (replay [(''a'', [1, 0]), (''b'', [1, 0])] [])"
  by (simp add: replay_def upsert_def search_def scored_def Array_sort_def)

end
